theory Spec2Isabelle
  imports Complex_Main "HOL-Library.AList"
begin

section \<open>Numbers\<close>

text \<open>
  The engine computes with JavaScript numbers.  They are modelled as \<^typ>\<open>real\<close>: rounding
  error of the binary floating-point format is not represented.  Where the source divides
  by a value that no guard keeps away from zero, the result is a \<open>jsnum\<close>, which adds the
  three non-finite values a JavaScript division can produce.  Creation times and trade times
  are the integer millisecond counts that \<^verbatim>\<open>Date.getTime()\<close> returns.
\<close>

datatype jsnum = Num real | PosInfinity | NegInfinity | NaN

definition js_div :: "real \<Rightarrow> real \<Rightarrow> jsnum" where
  "js_div a b =
     (if b \<noteq> 0 then Num (a / b)
      else if 0 < a then PosInfinity
      else if a < 0 then NegInfinity
      else NaN)"

fun js_times :: "jsnum \<Rightarrow> real \<Rightarrow> jsnum" where
  "js_times (Num q) c = Num (q * c)"
| "js_times PosInfinity c = (if 0 < c then PosInfinity else if c < 0 then NegInfinity else NaN)"
| "js_times NegInfinity c = (if 0 < c then NegInfinity else if c < 0 then PosInfinity else NaN)"
| "js_times NaN c = NaN"

fun js_minus :: "jsnum \<Rightarrow> real \<Rightarrow> jsnum" where
  "js_minus (Num q) c = Num (q - c)"
| "js_minus PosInfinity c = PosInfinity"
| "js_minus NegInfinity c = NegInfinity"
| "js_minus NaN c = NaN"

section \<open>Orders and the order book\<close>

text \<open>
  An order is the row of \<^verbatim>\<open>trading_orders\<close> that the engine receives.  \<open>order_type\<close> and
  \<open>status\<close> stay strings, as the book compares them with \<^verbatim>\<open>===\<close> against literals;
  \<open>credit_id\<close> is optional (\<open>None\<close> is \<^verbatim>\<open>undefined\<close>).
\<close>

record order =
  order_id :: string
  user_id :: string
  order_type :: string
  price :: real
  quantity :: real
  remaining_quantity :: real
  filled_quantity :: real
  status :: string
  credit_id :: "string option"
  created_at :: int

text \<open>
  A JavaScript \<^verbatim>\<open>Map\<close> keeps its keys in insertion order, so each map of the book is an
  association list: \<^const>\<open>map_of\<close> is \<^verbatim>\<open>get\<close>, \<^const>\<open>AList.update\<close> is \<^verbatim>\<open>set\<close>
  (overwrite in place, or append a new key) and \<^const>\<open>AList.delete\<close> is \<^verbatim>\<open>delete\<close>.
\<close>

type_synonym price_levels = "(real \<times> order list) list"

record orderbook =
  buyOrders :: price_levels
  sellOrders :: price_levels
  orderIndex :: "(string \<times> order) list"

definition clear :: orderbook where
  "clear = \<lparr>buyOrders = [], sellOrders = [], orderIndex = []\<rparr>"

definition has :: "('k \<times> 'v) list \<Rightarrow> 'k \<Rightarrow> bool" where
  "has m k = (map_of m k \<noteq> None)"

definition get_level :: "price_levels \<Rightarrow> real \<Rightarrow> order list" where
  "get_level m p = (case map_of m p of Some os \<Rightarrow> os | None \<Rightarrow> [])"

text \<open>
  \<open>addOrderMap\<close> is the part of \<^verbatim>\<open>addOrder\<close> that works on the chosen side: create the
  level if the price is new, push the order, then sort the level by creation time.
  \<^verbatim>\<open>Array.prototype.sort\<close> is stable, as is \<^const>\<open>sort_key\<close>.
\<close>

definition addOrderMap :: "price_levels \<Rightarrow> order \<Rightarrow> price_levels" where
  "addOrderMap orderMap ord =
     (let p = price ord;
          m1 = (if \<not> has orderMap p then AList.update p [] orderMap else orderMap);
          pushed = get_level m1 p @ [ord]
      in AList.update p (sort_key created_at pushed) m1)"

definition addOrder :: "orderbook \<Rightarrow> order \<Rightarrow> orderbook" where
  "addOrder ob ord =
     (let idx = AList.update (order_id ord) ord (orderIndex ob)
      in if order_type ord = ''buy''
         then ob\<lparr>orderIndex := idx, buyOrders := addOrderMap (buyOrders ob) ord\<rparr>
         else ob\<lparr>orderIndex := idx, sellOrders := addOrderMap (sellOrders ob) ord\<rparr>)"

text \<open>\<^verbatim>\<open>findIndex\<close> followed by \<^verbatim>\<open>splice(index, 1)\<close>: drop the first order with that id.\<close>

fun splice_first :: "string \<Rightarrow> order list \<Rightarrow> order list" where
  "splice_first i [] = []"
| "splice_first i (x # xs) = (if order_id x = i then xs else x # splice_first i xs)"

definition removeOrderMap :: "price_levels \<Rightarrow> order \<Rightarrow> price_levels" where
  "removeOrderMap orderMap ord =
     (let p = price ord
      in if has orderMap p then
           (let orders = get_level orderMap p
            in if list_ex (\<lambda>x. order_id x = order_id ord) orders then
                 (let orders' = splice_first (order_id ord) orders
                  in if length orders' = 0 then AList.delete p orderMap
                     else AList.update p orders' orderMap)
               else orderMap)
         else orderMap)"

definition removeOrder :: "orderbook \<Rightarrow> order \<Rightarrow> orderbook" where
  "removeOrder ob ord =
     (let idx = AList.delete (order_id ord) (orderIndex ob)
      in if order_type ord = ''buy''
         then ob\<lparr>orderIndex := idx, buyOrders := removeOrderMap (buyOrders ob) ord\<rparr>
         else ob\<lparr>orderIndex := idx, sellOrders := removeOrderMap (sellOrders ob) ord\<rparr>)"

definition updateOrder :: "orderbook \<Rightarrow> order \<Rightarrow> orderbook" where
  "updateOrder ob ord =
     (case map_of (orderIndex ob) (order_id ord) of
        None \<Rightarrow> ob
      | Some existingOrder \<Rightarrow>
          (let ob1 = removeOrder ob existingOrder
           in if status ord = ''pending'' then addOrder ob1 ord else ob1))"

text \<open>A run of \<^verbatim>\<open>addOrder\<close> calls on a book, in the order given.\<close>

definition addOrders :: "orderbook \<Rightarrow> order list \<Rightarrow> orderbook" where
  "addOrders ob ords = foldl addOrder ob ords"

subsection \<open>Properties of a book\<close>

text \<open>A price level is in FIFO order when its creation times ascend.\<close>

definition level_fifo :: "order list \<Rightarrow> bool" where
  "level_fifo os = sorted (map created_at os)"

definition levels_fifo :: "price_levels \<Rightarrow> bool" where
  "levels_fifo m = (\<forall>(p, os) \<in> set m. level_fifo os)"

definition book_fifo :: "orderbook \<Rightarrow> bool" where
  "book_fifo ob = (levels_fifo (buyOrders ob) \<and> levels_fifo (sellOrders ob))"

text \<open>
  The shape every side of a book has when it was built by the operations above: one level
  per price, and each order filed under its own price.
\<close>

definition levels_wf :: "price_levels \<Rightarrow> bool" where
  "levels_wf m = (distinct (map fst m) \<and> (\<forall>(p, os) \<in> set m. \<forall>x \<in> set os. price x = p))"

definition book_wf :: "orderbook \<Rightarrow> bool" where
  "book_wf ob = (levels_wf (buyOrders ob) \<and> levels_wf (sellOrders ob))"

subsection \<open>Match finding and snapshots\<close>

definition isMatch :: "order \<Rightarrow> real \<Rightarrow> bool" where
  "isMatch newOrder p =
     (if order_type newOrder = ''buy'' then p \<le> price newOrder else p \<ge> price newOrder)"

text \<open>
  The loop of \<^verbatim>\<open>findMatches\<close> over the sorted prices: \<^verbatim>\<open>break\<close> at the first price
  that is not acceptable, otherwise push the level's orders with a positive remaining
  quantity onto \<open>matches\<close>.
\<close>

fun scanPrices :: "price_levels \<Rightarrow> order \<Rightarrow> real list \<Rightarrow> order list \<Rightarrow> order list" where
  "scanPrices oppositeMap newOrder [] matches = matches"
| "scanPrices oppositeMap newOrder (p # ps) matches =
     (if \<not> isMatch newOrder p then matches
      else scanPrices oppositeMap newOrder ps
             (matches @ filter (\<lambda>x. remaining_quantity x > 0) (get_level oppositeMap p)))"

definition sortedPrices :: "price_levels \<Rightarrow> order \<Rightarrow> real list" where
  "sortedPrices oppositeMap newOrder =
     sort_key (\<lambda>p. if order_type newOrder = ''buy'' then p else - p) (map fst oppositeMap)"

definition findMatches :: "orderbook \<Rightarrow> order \<Rightarrow> order list" where
  "findMatches ob newOrder =
     (let oppositeMap = (if order_type newOrder = ''buy'' then sellOrders ob else buyOrders ob)
      in scanPrices oppositeMap newOrder (sortedPrices oppositeMap newOrder) [])"

record level =
  level_price :: real
  level_quantity :: real
  orderCount :: nat

record snapshot =
  buyLevels :: "level list"
  sellLevels :: "level list"
  spread :: real

definition aggregate :: "real \<times> order list \<Rightarrow> level" where
  "aggregate entry =
     (case entry of (p, orders) \<Rightarrow>
        \<lparr>level_price = p,
         level_quantity = foldl (\<lambda>sum x. sum + remaining_quantity x) 0 orders,
         orderCount = length orders\<rparr>)"

text \<open>
  \<^verbatim>\<open>parseFloat(price.toString())\<close> returns the number it is given, so a level keeps
  the key of its map entry as its price.
\<close>

definition getSnapshot :: "orderbook \<Rightarrow> snapshot" where
  "getSnapshot ob =
     (let bl = sort_key (\<lambda>l. - level_price l) (map aggregate (buyOrders ob));
          sl = sort_key level_price (map aggregate (sellOrders ob))
      in \<lparr>buyLevels = bl, sellLevels = sl,
          spread = (case (sl, bl) of
                      (s # _, b # _) \<Rightarrow> level_price s - level_price b
                    | _ \<Rightarrow> 0)\<rparr>)"

section \<open>The matching engine\<close>

text \<open>
  The row \<^verbatim>\<open>executeMatch\<close> inserts into \<^verbatim>\<open>transactions\<close> (its random
  \<^verbatim>\<open>blockchain_tx_hash\<close> is left out), and the updates \<^verbatim>\<open>updateOrderQuantities\<close> sends to
  \<^verbatim>\<open>trading_orders\<close>.  The database is outside the engine: it is a parameter \<open>db\<close> that
  says whether an insert is accepted.  A refused insert is the error the source throws and
  catches inside \<^verbatim>\<open>executeMatch\<close>.
\<close>

record transaction =
  buyer_id :: string
  seller_id :: string
  tx_credit_id :: "string option"
  tx_quantity :: real
  price_per_ton :: real
  tx_status :: string

record order_update =
  target_order_id :: string
  set_status :: "string option"
  set_filled_quantity :: real

datatype engine_error = InsertFailed

text \<open>\<^verbatim>\<open>a || b\<close> on optional strings: the empty string and \<^verbatim>\<open>undefined\<close> are falsy.\<close>

definition js_or :: "string option \<Rightarrow> string option \<Rightarrow> string option" where
  "js_or a b = (case a of None \<Rightarrow> b | Some s \<Rightarrow> if s = [] then b else a)"

definition quantityUpdate :: "order \<Rightarrow> real \<Rightarrow> order_update" where
  "quantityUpdate ord executedQuantity =
     (let newQuantity = remaining_quantity ord - executedQuantity
      in if newQuantity \<le> 0
         then \<lparr>target_order_id = order_id ord, set_status = Some ''completed'',
               set_filled_quantity = quantity ord\<rparr>
         else \<lparr>target_order_id = order_id ord, set_status = None,
               set_filled_quantity = filled_quantity ord + executedQuantity\<rparr>)"

definition updateOrderQuantities :: "order \<Rightarrow> order \<Rightarrow> real \<Rightarrow> order_update list" where
  "updateOrderQuantities buyOrder sellOrder executedQuantity =
     [quantityUpdate buyOrder executedQuantity, quantityUpdate sellOrder executedQuantity]"

text \<open>
  The parameters keep the source's names: \<^verbatim>\<open>attemptOrderMatching\<close> passes the incoming
  order as \<open>buyOrder\<close> and the resting match as \<open>sellOrder\<close>, whatever their sides.
\<close>

definition executeMatch ::
  "(transaction \<Rightarrow> bool) \<Rightarrow> order \<Rightarrow> order \<Rightarrow> engine_error + transaction \<times> order_update list"
where
  "executeMatch db buyOrder sellOrder =
     (let execQuantity = min (remaining_quantity buyOrder) (remaining_quantity sellOrder);
          execPrice = price buyOrder;
          row = \<lparr>buyer_id = user_id buyOrder, seller_id = user_id sellOrder,
                 tx_credit_id = js_or (credit_id buyOrder) (credit_id sellOrder),
                 tx_quantity = execQuantity, price_per_ton = execPrice,
                 tx_status = ''pending''\<rparr>
      in if \<not> db row then Inl InsertFailed
         else Inr (row, updateOrderQuantities buyOrder sellOrder execQuantity))"

definition attemptOrderMatching ::
  "(transaction \<Rightarrow> bool) \<Rightarrow> orderbook \<Rightarrow> order
     \<Rightarrow> (engine_error + transaction \<times> order_update list) list"
where
  "attemptOrderMatching db ob newOrder = map (executeMatch db newOrder) (findMatches ob newOrder)"

datatype order_event = INSERT order | UPDATE order | DELETE order

fun handleOrderUpdate ::
  "(transaction \<Rightarrow> bool) \<Rightarrow> orderbook \<Rightarrow> order_event
     \<Rightarrow> orderbook \<times> (engine_error + transaction \<times> order_update list) list"
where
  "handleOrderUpdate db ob (INSERT newOrder) =
     (let ob1 = addOrder ob newOrder in (ob1, attemptOrderMatching db ob1 newOrder))"
| "handleOrderUpdate db ob (UPDATE newOrder) = (updateOrder ob newOrder, [])"
| "handleOrderUpdate db ob (DELETE oldOrder) = (removeOrder ob oldOrder, [])"

text \<open>The trades of a pass: the rows whose insert was accepted, in execution order.\<close>

fun tradesOf :: "(engine_error + transaction \<times> order_update list) list \<Rightarrow> transaction list" where
  "tradesOf [] = []"
| "tradesOf (Inl e # rs) = tradesOf rs"
| "tradesOf (Inr (t, us) # rs) = t # tradesOf rs"


text \<open>The book after a sequence of order events, starting from a given book.\<close>

fun applyEvents :: "(transaction \<Rightarrow> bool) \<Rightarrow> orderbook \<Rightarrow> order_event list \<Rightarrow> orderbook" where
  "applyEvents db ob [] = ob"
| "applyEvents db ob (ev # evs) = applyEvents db (fst (handleOrderUpdate db ob ev)) evs"

section \<open>The price engine\<close>

text \<open>
  A trade as \<^verbatim>\<open>addTrade\<close> builds it from a transaction row.  The clock is a parameter
  \<open>now\<close>, in milliseconds.  \<open>None\<close> is the \<^verbatim>\<open>null\<close> that the queries return for "no data".
\<close>

record trade =
  trade_price :: real
  trade_quantity :: real
  timestamp :: int
  creditId :: string

record priceengine =
  recentTrades :: "trade list"
  priceHistory :: "(string \<times> trade list) list"

definition get_history :: "(string \<times> trade list) list \<Rightarrow> string \<Rightarrow> trade list" where
  "get_history m k = (case map_of m k of Some ts \<Rightarrow> ts | None \<Rightarrow> [])"

definition addTrade :: "priceengine \<Rightarrow> trade \<Rightarrow> priceengine" where
  "addTrade pe t =
     (let pushed = recentTrades pe @ [t];
          kept = (if length pushed > 1000 then drop (length pushed - 1000) pushed else pushed);
          h1 = (if \<not> has (priceHistory pe) (creditId t)
                then AList.update (creditId t) [] (priceHistory pe) else priceHistory pe)
      in \<lparr>recentTrades = kept,
          priceHistory = AList.update (creditId t) (get_history h1 (creditId t) @ [t]) h1\<rparr>)"

definition relevantTrades :: "priceengine \<Rightarrow> int \<Rightarrow> string \<Rightarrow> int \<Rightarrow> trade list" where
  "relevantTrades pe now cid timeWindow =
     (let cutoff = now - timeWindow
      in filter (\<lambda>t. creditId t = cid \<and> timestamp t \<ge> cutoff) (recentTrades pe))"

definition getVWAP :: "priceengine \<Rightarrow> int \<Rightarrow> string \<Rightarrow> int \<Rightarrow> real option" where
  "getVWAP pe now cid timeWindow =
     (let relevant = relevantTrades pe now cid timeWindow
      in if length relevant = 0 then None
         else
           (let totalValue = foldl (\<lambda>sum t. sum + trade_price t * trade_quantity t) 0 relevant;
                totalQuantity = foldl (\<lambda>sum t. sum + trade_quantity t) 0 relevant
            in if totalQuantity > 0 then Some (totalValue / totalQuantity) else None))"

definition getLastPrice :: "priceengine \<Rightarrow> string \<Rightarrow> real option" where
  "getLastPrice pe cid =
     (case map_of (priceHistory pe) cid of
        None \<Rightarrow> None
      | Some trades \<Rightarrow> if length trades > 0 then Some (trade_price (last trades)) else None)"

record price_change =
  absolute :: real
  percentage :: jsnum

text \<open>
  \<^verbatim>\<open>!currentPrice\<close> holds for \<^verbatim>\<open>null\<close> and for the number 0.  The percentage divides by
  the historical price, which nothing keeps away from 0.
\<close>

definition getPriceChange :: "priceengine \<Rightarrow> int \<Rightarrow> string \<Rightarrow> int \<Rightarrow> price_change option" where
  "getPriceChange pe now cid timeWindow =
     (case map_of (priceHistory pe) cid of
        None \<Rightarrow> None
      | Some trades \<Rightarrow>
          if length trades < 2 then None
          else
            (let cutoff = now - timeWindow;
                 currentPrice = getLastPrice pe cid;
                 historicalTrade = find (\<lambda>t. timestamp t \<le> cutoff) trades
             in case historicalTrade of
                  None \<Rightarrow> None
                | Some h \<Rightarrow>
                    (case currentPrice of
                       None \<Rightarrow> None
                     | Some cp \<Rightarrow>
                         if cp = 0 then None
                         else
                           (let change = cp - trade_price h;
                                changePercent = js_times (js_div change (trade_price h)) 100
                            in Some \<lparr>absolute = change, percentage = changePercent\<rparr>))))"

section \<open>The analytics worker\<close>

definition calculateVolatility :: "real list \<Rightarrow> real" where
  "calculateVolatility prices =
     (if length prices < 2 then 0
      else
        (let mean = foldl (\<lambda>sum p. sum + p) 0 prices / real (length prices);
             variance = foldl (\<lambda>sum p. sum + (p - mean) ^ 2) 0 prices / real (length prices)
         in sqrt variance))"

text \<open>\<^verbatim>\<open>slice(start, stop)\<close> for indices inside the array.\<close>

definition slice :: "nat \<Rightarrow> nat \<Rightarrow> 'a list \<Rightarrow> 'a list" where
  "slice start stop xs = take (stop - start) (drop start xs)"

definition trailingWindow :: "real list \<Rightarrow> nat \<Rightarrow> real list" where
  "trailingWindow rawData index =
     (let windowSize = min 5 (index + 1)
      in slice (nat (max 0 (int index - int windowSize + 1))) (index + 1) rawData)"

definition movingAverageAt :: "real list \<Rightarrow> nat \<Rightarrow> real" where
  "movingAverageAt rawData index =
     (let window = trailingWindow rawData index
      in foldl (\<lambda>sum w. sum + w) 0 window / real (length window))"

definition volatilityAt :: "real list \<Rightarrow> nat \<Rightarrow> real" where
  "volatilityAt rawData index = calculateVolatility (trailingWindow rawData index)"

text \<open>
  \<open>movingAverageAt\<close> and \<open>volatilityAt\<close> are the two values that the callback of
  \<^verbatim>\<open>processMarketData\<close> computes for the item at \<open>index\<close>; an item of \<^verbatim>\<open>rawData\<close> is
  represented by its price, the only field the callback reads.  The source then stores
  \<^verbatim>\<open>Math.round(x * 100) / 100\<close> of each value in the item it returns.  That rounding acts
  on the floating-point result, where a difference in the last bit can move a value across
  a rounding boundary, so it has no counterpart over \<^typ>\<open>real\<close> and the returned items
  are not modelled.
\<close>

record orderbook_analytics =
  depth_buy :: real
  depth_sell :: real
  depth_total :: real
  bestBid :: real
  bestAsk :: real
  price_spread :: real
  midPrice :: real
  imbalance :: jsnum
  liquidity_score :: real
  liquidity_quality :: string

text \<open>The argument is the pair of level lists of a snapshot (each defaults to \<open>[]\<close>).\<close>

definition calculateOrderBookAnalytics :: "level list \<Rightarrow> level list \<Rightarrow> orderbook_analytics" where
  "calculateOrderBookAnalytics buyLvls sellLvls =
     (let buyDepth = foldl (\<lambda>sum l. sum + level_quantity l) 0 buyLvls;
          sellDepth = foldl (\<lambda>sum l. sum + level_quantity l) 0 sellLvls;
          bid = (case buyLvls of [] \<Rightarrow> 0 | l # _ \<Rightarrow> level_price l);
          ask = (case sellLvls of [] \<Rightarrow> 0 | l # _ \<Rightarrow> level_price l);
          spr = ask - bid
      in \<lparr>depth_buy = buyDepth, depth_sell = sellDepth, depth_total = buyDepth + sellDepth,
          bestBid = bid, bestAsk = ask, price_spread = spr, midPrice = (bid + ask) / 2,
          imbalance = js_minus (js_div buyDepth (buyDepth + sellDepth)) 0.5,
          liquidity_score = min 100 ((buyDepth + sellDepth) / 10),
          liquidity_quality =
            (if spr < 1 then ''high'' else if spr < 5 then ''medium'' else ''low'')\<rparr>)"

section \<open>The specification's formulas\<close>

text \<open>
  Definitions written from the words of the specification, to compare the source with.
  \<open>crosses\<close>: an incoming buy matches asks priced at or below its limit, an incoming
  sell matches bids priced at or above its limit.
\<close>

definition crosses :: "order \<Rightarrow> order \<Rightarrow> bool" where
  "crosses incoming resting =
     (if order_type incoming = ''buy'' then price resting \<le> price incoming
      else price resting \<ge> price incoming)"

definition opposite_side :: "orderbook \<Rightarrow> order \<Rightarrow> price_levels" where
  "opposite_side ob incoming =
     (if order_type incoming = ''buy'' then sellOrders ob else buyOrders ob)"

definition resting_orders :: "price_levels \<Rightarrow> order set" where
  "resting_orders m = (\<Union>(p, os) \<in> set m. set os)"

text \<open>Price priority: ask prices ascend for an incoming buy, bid prices descend for a sell.\<close>

definition price_priority :: "order \<Rightarrow> real list \<Rightarrow> bool" where
  "price_priority incoming ps =
     (if order_type incoming = ''buy'' then sorted_wrt (\<lambda>a b. a \<le> b) ps
      else sorted_wrt (\<lambda>a b. a \<ge> b) ps)"

text \<open>Two abbreviations used in the proofs about \<^verbatim>\<open>findMatches\<close>.\<close>

definition eligible :: "price_levels \<Rightarrow> real \<Rightarrow> order list" where
  "eligible m p = filter (\<lambda>x. remaining_quantity x > 0) (get_level m p)"

definition prio :: "order \<Rightarrow> real \<Rightarrow> real" where
  "prio n p = (if order_type n = ''buy'' then p else - p)"

definition arithmetic_mean :: "real list \<Rightarrow> real" where
  "arithmetic_mean xs = sum_list xs / real (length xs)"

definition population_std_dev :: "real list \<Rightarrow> real" where
  "population_std_dev xs =
     sqrt (sum_list (map (\<lambda>x. (x - arithmetic_mean xs) ^ 2) xs) / real (length xs))"

definition sample_std_dev :: "real list \<Rightarrow> real" where
  "sample_std_dev xs =
     sqrt (sum_list (map (\<lambda>x. (x - arithmetic_mean xs) ^ 2) xs) / real (length xs - 1))"

text \<open>
  \<open>priceChange_spec\<close>: the last trade price minus the price of the oldest trade still
  within the window, with its percentage relative to that baseline; no data when fewer
  than two trades are in range.
\<close>

definition priceChange_spec :: "priceengine \<Rightarrow> int \<Rightarrow> string \<Rightarrow> int \<Rightarrow> price_change option" where
  "priceChange_spec pe now cid timeWindow =
     (let inRange = filter (\<lambda>t. timestamp t \<ge> now - timeWindow)
                      (get_history (priceHistory pe) cid)
      in case inRange of
           oldest # _ # _ \<Rightarrow>
             (let change = trade_price (last inRange) - trade_price oldest
              in Some \<lparr>absolute = change,
                       percentage = js_times (js_div change (trade_price oldest)) 100\<rparr>)
         | _ \<Rightarrow> None)"

section \<open>Example data\<close>

definition buyA :: order where
  "buyA = \<lparr>order_id = ''A'', user_id = ''u1'', order_type = ''buy'', price = 20, quantity = 8,
     remaining_quantity = 8, filled_quantity = 0, status = ''pending'', credit_id = Some ''c1'',
     created_at = 100\<rparr>"

definition buyB :: order where
  "buyB = \<lparr>order_id = ''B'', user_id = ''u2'', order_type = ''buy'', price = 20, quantity = 5,
     remaining_quantity = 5, filled_quantity = 0, status = ''pending'', credit_id = Some ''c1'',
     created_at = 200\<rparr>"

definition badOrder :: order where
  "badOrder = \<lparr>order_id = ''X'', user_id = ''u3'', order_type = ''hold'', price = - 1, quantity = 0,
     remaining_quantity = 0, filled_quantity = 0, status = ''pending'', credit_id = None,
     created_at = 300\<rparr>"

definition sell25 :: order where
  "sell25 = \<lparr>order_id = ''S1'', user_id = ''u4'', order_type = ''sell'', price = 25, quantity = 50,
     remaining_quantity = 50, filled_quantity = 0, status = ''pending'', credit_id = Some ''c1'',
     created_at = 50\<rparr>"

definition buy26 :: order where
  "buy26 = \<lparr>order_id = ''B2'', user_id = ''u5'', order_type = ''buy'', price = 26, quantity = 30,
     remaining_quantity = 30, filled_quantity = 0, status = ''pending'', credit_id = Some ''c1'',
     created_at = 60\<rparr>"

definition sellC :: order where
  "sellC = \<lparr>order_id = ''C'', user_id = ''u6'', order_type = ''sell'', price = 25, quantity = 5,
     remaining_quantity = 5, filled_quantity = 0, status = ''pending'', credit_id = Some ''c1'',
     created_at = 10\<rparr>"

definition sellD :: order where
  "sellD = \<lparr>order_id = ''D'', user_id = ''u7'', order_type = ''sell'', price = 25, quantity = 5,
     remaining_quantity = 5, filled_quantity = 0, status = ''pending'', credit_id = Some ''c1'',
     created_at = 20\<rparr>"

definition buyE :: order where
  "buyE = \<lparr>order_id = ''E'', user_id = ''u8'', order_type = ''buy'', price = 25, quantity = 5,
     remaining_quantity = 5, filled_quantity = 0, status = ''pending'', credit_id = Some ''c1'',
     created_at = 30\<rparr>"

definition sellF :: order where
  "sellF = \<lparr>order_id = ''F'', user_id = ''u9'', order_type = ''sell'', price = 27, quantity = 7,
     remaining_quantity = 7, filled_quantity = 0, status = ''pending'', credit_id = Some ''c1'',
     created_at = 5\<rparr>"

definition sellG :: order where
  "sellG = \<lparr>order_id = ''G'', user_id = ''u9'', order_type = ''sell'', price = 24, quantity = 4,
     remaining_quantity = 0, filled_quantity = 4, status = ''pending'', credit_id = Some ''c1'',
     created_at = 7\<rparr>"

definition exBook :: orderbook where
  "exBook = \<lparr>buyOrders = [(20, [buyA, buyB])],
             sellOrders = [(27, [sellF]), (25, [sellC, sellD]), (24, [sellG])],
             orderIndex = [(''A'', buyA), (''B'', buyB), (''F'', sellF), (''C'', sellC),
                           (''D'', sellD), (''G'', sellG)]\<rparr>"

definition accept_all :: "transaction \<Rightarrow> bool" where
  "accept_all row = True"

definition trade1 :: trade where
  "trade1 = \<lparr>trade_price = 10, trade_quantity = 1, timestamp = 0, creditId = ''c1''\<rparr>"

definition trade2 :: trade where
  "trade2 = \<lparr>trade_price = 20, trade_quantity = 2, timestamp = 100, creditId = ''c1''\<rparr>"

definition trade3 :: trade where
  "trade3 = \<lparr>trade_price = 30, trade_quantity = 1, timestamp = 200, creditId = ''c1''\<rparr>"

definition tradeZero :: trade where
  "tradeZero = \<lparr>trade_price = 10, trade_quantity = 0, timestamp = 100, creditId = ''c1''\<rparr>"

definition exEngine :: priceengine where
  "exEngine = \<lparr>recentTrades = [trade1, trade2, trade3],
               priceHistory = [(''c1'', [trade1, trade2, trade3])]\<rparr>"

definition zeroEngine :: priceengine where
  "zeroEngine = \<lparr>recentTrades = [tradeZero], priceHistory = [(''c1'', [tradeZero])]\<rparr>"

definition buy10 :: order where
  "buy10 = \<lparr>order_id = ''P'', user_id = ''u1'', order_type = ''buy'', price = 25, quantity = 10,
     remaining_quantity = 10, filled_quantity = 0, status = ''pending'', credit_id = Some ''c1'',
     created_at = 1\<rparr>"

definition sell6 :: order where
  "sell6 = \<lparr>order_id = ''Q'', user_id = ''u2'', order_type = ''sell'', price = 24, quantity = 6,
     remaining_quantity = 6, filled_quantity = 0, status = ''pending'', credit_id = Some ''c1'',
     created_at = 2\<rparr>"

definition trade26 :: transaction where
  "trade26 = \<lparr>buyer_id = ''u5'', seller_id = ''u4'', tx_credit_id = Some ''c1'',
     tx_quantity = 30, price_per_ton = 26, tx_status = ''pending''\<rparr>"

section \<open>Facts about the book operations\<close>

lemma levels_fifo_update:
  "levels_fifo m \<Longrightarrow> level_fifo os \<Longrightarrow> levels_fifo (AList.update p os m)"
  by (induction m) (auto simp: levels_fifo_def)

lemma level_fifo_sort: "level_fifo (sort_key created_at os)"
  by (simp add: level_fifo_def)

lemma levels_fifo_addOrderMap: "levels_fifo m \<Longrightarrow> levels_fifo (addOrderMap m ord)"
  by (simp add: addOrderMap_def Let_def levels_fifo_update level_fifo_sort level_fifo_def)

lemma book_fifo_addOrder: "book_fifo ob \<Longrightarrow> book_fifo (addOrder ob ord)"
  by (simp add: book_fifo_def addOrder_def Let_def levels_fifo_addOrderMap)

lemma book_fifo_clear: "book_fifo clear"
  by (simp add: book_fifo_def clear_def levels_fifo_def)

lemma book_fifo_foldl: "book_fifo ob \<Longrightarrow> book_fifo (foldl addOrder ob ords)"
  by (induction ords arbitrary: ob) (simp_all add: book_fifo_addOrder)

lemma get_level_update: "get_level (AList.update p os m) p = os"
  by (simp add: get_level_def update_conv')

lemma index_addOrder: "map_of (orderIndex (addOrder ob ord)) (order_id ord) = Some ord"
  by (simp add: addOrder_def Let_def update_conv')

lemma level_addOrderMap: "ord \<in> set (get_level (addOrderMap m ord) (price ord))"
  by (simp add: addOrderMap_def Let_def get_level_update)

lemma book_buyA: "addOrder clear buyA =
    \<lparr>buyOrders = [(20, [buyA])], sellOrders = [], orderIndex = [(''A'', buyA)]\<rparr>"
  by (simp add: addOrder_def addOrderMap_def clear_def has_def get_level_def Let_def buyA_def)

lemma book_buyA_buyB: "addOrder (addOrder clear buyA) buyB =
    \<lparr>buyOrders = [(20, [buyA, buyB])], sellOrders = [],
     orderIndex = [(''A'', buyA), (''B'', buyB)]\<rparr>"
  unfolding book_buyA
  by (simp add: addOrder_def addOrderMap_def has_def get_level_def Let_def)
     (simp add: buyA_def buyB_def)

lemma foldl_add_sum: "foldl (\<lambda>s x. s + f x) a xs = (a::real) + sum_list (map f xs)"
  by (induction xs arbitrary: a) simp_all

lemma tradesOf_price:
  "t \<in> set (tradesOf (map (executeMatch db n) ms)) \<Longrightarrow> price_per_ton t = price n"
  by (induction ms) (auto simp: executeMatch_def Let_def split: if_splits)

lemma executeMatch_quantities:
  "list_all2 (\<lambda>m r. case r of Inl e \<Rightarrow> True
                  | Inr (t, us) \<Rightarrow> tx_quantity t = min (remaining_quantity n) (remaining_quantity m))
      ms (map (executeMatch db n) ms)"
  by (induction ms) (simp_all add: executeMatch_def Let_def)

lemma book_sell25_buy26: "addOrder (addOrder clear sell25) buy26 =
   \<lparr>buyOrders = [(26, [buy26])], sellOrders = [(25, [sell25])],
    orderIndex = [(''S1'', sell25), (''B2'', buy26)]\<rparr>"
  by (simp add: addOrder_def addOrderMap_def clear_def has_def get_level_def Let_def
      sell25_def buy26_def)

lemma matches_sell25_buy26: "findMatches (addOrder (addOrder clear sell25) buy26) buy26 = [sell25]"
  unfolding book_sell25_buy26
  by (simp add: findMatches_def sortedPrices_def isMatch_def get_level_def buy26_def sell25_def)

lemma pass_sell25_buy26:
  "handleOrderUpdate accept_all (addOrder clear sell25) (INSERT buy26) =
     (addOrder (addOrder clear sell25) buy26, [executeMatch accept_all buy26 sell25])"
  by (simp add: Let_def attemptOrderMatching_def matches_sell25_buy26)

lemma exec_buy26_sell25:
  "executeMatch accept_all buy26 sell25 =
     Inr (trade26, updateOrderQuantities buy26 sell25 30)"
  by (simp add: executeMatch_def accept_all_def Let_def trade26_def js_or_def buy26_def sell25_def)

lemma book_buy10_sell6: "addOrder (addOrder clear buy10) sell6 =
   \<lparr>buyOrders = [(25, [buy10])], sellOrders = [(24, [sell6])],
    orderIndex = [(''P'', buy10), (''Q'', sell6)]\<rparr>"
  by (simp add: addOrder_def addOrderMap_def clear_def has_def get_level_def Let_def
      buy10_def sell6_def)

lemma matches_buy10_sell6: "findMatches (addOrder (addOrder clear buy10) sell6) sell6 = [buy10]"
  unfolding book_buy10_sell6
  by (simp add: findMatches_def sortedPrices_def isMatch_def get_level_def buy10_def sell6_def)

text \<open>
  The first scenario of the specification (a buy of 10 at 25 rests, a sell of 6 at 24
  arrives): the source records the trade at 24, the price of the incoming sell order, although
  its comment says that the buyer's price takes precedence.
\<close>

lemma incoming_sell_scenario:
  "map (\<lambda>t. (price_per_ton t, tx_quantity t))
     (tradesOf (snd (handleOrderUpdate accept_all (addOrder clear buy10) (INSERT sell6))))
   = [(24, 6)]"
  by (simp add: Let_def attemptOrderMatching_def matches_buy10_sell6)
     (simp add: executeMatch_def accept_all_def Let_def buy10_def sell6_def)

lemma book_exBook_buyE:
  "addOrder exBook buyE = exBook\<lparr>buyOrders := [(20, [buyA, buyB]), (25, [buyE])],
     orderIndex := orderIndex exBook @ [(''E'', buyE)]\<rparr>"
  by (simp add: addOrder_def addOrderMap_def has_def get_level_def Let_def exBook_def buyE_def)

lemma matches_exBook_buyE: "findMatches (addOrder exBook buyE) buyE = [sellC, sellD]"
  unfolding book_exBook_buyE
  by (simp add: findMatches_def sortedPrices_def isMatch_def get_level_def exBook_def buyE_def
      sellC_def sellD_def sellG_def sellF_def)

lemma pass_exBook_buyE:
  "handleOrderUpdate accept_all exBook (INSERT buyE) =
     (addOrder exBook buyE, map (executeMatch accept_all buyE) [sellC, sellD])"
  by (simp add: Let_def attemptOrderMatching_def matches_exBook_buyE)

lemma foldl_plus_sum: "foldl (\<lambda>s x. s + x) a xs = (a::real) + sum_list xs"
  by (induction xs arbitrary: a) simp_all

lemma volatility_population: "2 \<le> length prices \<Longrightarrow> calculateVolatility prices = population_std_dev prices"
  by (simp add: calculateVolatility_def population_std_dev_def arithmetic_mean_def Let_def
      foldl_add_sum foldl_plus_sum)

lemma take_drop_nth: "k + n \<le> length xs \<Longrightarrow> take n (drop k xs) = map (\<lambda>i. xs ! i) [k..<k + n]"
  by (rule nth_equalityI) simp_all

lemma window_points:
  assumes "index < length rawData"
  shows "trailingWindow rawData index =
         map (\<lambda>k. rawData ! k) [index + 1 - min 5 (index + 1) ..< index + 1]"
proof -
  define n where "n = min 5 (index + 1)"
  define s where "s = index + 1 - n"
  have e: "nat (max 0 (int index - int n + 1)) = s"
    unfolding s_def n_def by auto
  have sn: "s + n = index + 1"
    unfolding s_def n_def by auto
  have "trailingWindow rawData index = take (index + 1 - s) (drop s rawData)"
    unfolding trailingWindow_def slice_def Let_def n_def [symmetric] e ..
  also have "index + 1 - s = n"
    using sn by arith
  also have "take n (drop s rawData) = map (\<lambda>i. rawData ! i) [s..<s + n]"
    using assms sn by (intro take_drop_nth) simp
  finally show ?thesis
    unfolding sn unfolding s_def n_def .
qed

lemma window_length: "index < length rawData \<Longrightarrow> length (trailingWindow rawData index) = min 5 (index + 1)"
  by (simp add: window_points)

lemma movingAverage_mean: "movingAverageAt rawData index = arithmetic_mean (trailingWindow rawData index)"
  by (simp add: movingAverageAt_def arithmetic_mean_def Let_def foldl_plus_sum)

lemma imbalance_in_range:
  assumes "\<forall>l \<in> set bl. 0 \<le> level_quantity l" "\<forall>l \<in> set sl. 0 \<le> level_quantity l"
    and "0 < sum_list (map level_quantity bl) + sum_list (map level_quantity sl)"
  shows "\<exists>q. imbalance (calculateOrderBookAnalytics bl sl) = Num q \<and> - 0.5 \<le> q \<and> q \<le> 0.5"
proof -
  define b where "b = sum_list (map level_quantity bl)"
  define s where "s = sum_list (map level_quantity sl)"
  define q where "q = b / (b + s)"
  have b: "0 \<le> b" unfolding b_def using assms(1) by (intro sum_list_nonneg) auto
  have s: "0 \<le> s" unfolding s_def using assms(2) by (intro sum_list_nonneg) auto
  have pos: "0 < b + s" using assms(3) by (simp add: b_def s_def)
  have "imbalance (calculateOrderBookAnalytics bl sl) = Num (q - 0.5)"
    using pos by (simp add: calculateOrderBookAnalytics_def js_div_def foldl_add_sum Let_def
        b_def s_def q_def)
  moreover have "0 \<le> q" unfolding q_def using b s by simp
  moreover have "q \<le> 1" unfolding q_def using b s pos by (simp add: divide_le_eq)
  ultimately show ?thesis by (intro exI [of _ "q - 0.5"]) simp
qed

lemma volatility_1_3: "calculateVolatility [1, 3] = 1"
  by (simp add: calculateVolatility_def Let_def)

lemma sample_1_3: "sample_std_dev [1, 3] = sqrt 2"
  by (simp add: sample_std_dev_def arithmetic_mean_def)

lemma scanPrices_takeWhile:
  "scanPrices m n ps acc = acc @ concat (map (eligible m) (takeWhile (isMatch n) ps))"
  by (induction ps arbitrary: acc) (simp_all add: eligible_def)

lemma takeWhile_sorted_filter:
  "sorted (map k xs) \<Longrightarrow> takeWhile (\<lambda>x. k x \<le> (c::real)) xs = filter (\<lambda>x. k x \<le> c) xs"
proof (induction xs)
  case Nil
  then show ?case by simp
next
  case (Cons x xs)
  show ?case
  proof (cases "k x \<le> c")
    case True
    with Cons show ?thesis by simp
  next
    case False
    with Cons.prems have "\<forall>y \<in> set xs. \<not> k y \<le> c" by auto
    then have "filter (\<lambda>x. k x \<le> c) xs = []" by (simp add: filter_empty_conv)
    with False show ?thesis by simp
  qed
qed

lemma isMatch_prio: "isMatch n p = (prio n p \<le> prio n (price n))"
  by (simp add: isMatch_def prio_def)

lemma sortedPrices_prio: "sortedPrices m n = sort_key (prio n) (map fst m)"
  by (simp add: sortedPrices_def prio_def [abs_def])

lemma takeWhile_sortedPrices:
  "takeWhile (isMatch n) (sortedPrices m n) = filter (isMatch n) (sortedPrices m n)"
proof -
  have "sorted (map (prio n) (sortedPrices m n))"
    by (simp add: sortedPrices_prio)
  from takeWhile_sorted_filter [OF this, of "prio n (price n)"]
  show ?thesis by (simp add: isMatch_prio [abs_def])
qed

lemma findMatches_concat:
  "findMatches ob n = concat (map (eligible (opposite_side ob n))
      (takeWhile (isMatch n) (sortedPrices (opposite_side ob n) n)))"
  by (simp add: findMatches_def opposite_side_def Let_def scanPrices_takeWhile)

lemma get_level_wf:
  "levels_wf m \<Longrightarrow> x \<in> set (get_level m p) \<Longrightarrow> price x = p"
  by (auto simp add: levels_wf_def get_level_def split: option.splits dest!: map_of_SomeD)

lemma eligible_price: "levels_wf m \<Longrightarrow> x \<in> set (eligible m p) \<Longrightarrow> price x = p"
  by (auto simp add: eligible_def dest: get_level_wf)

lemma filter_price_concat:
  assumes "levels_wf m" "distinct ps"
  shows "filter (\<lambda>x. price x = p) (concat (map (eligible m) ps))
         = (if p \<in> set ps then eligible m p else [])"
  using assms(2)
proof (induction ps)
  case Nil
  then show ?case by simp
next
  case (Cons q ps)
  have same: "filter (\<lambda>x. price x = p) (eligible m q) = (if q = p then eligible m p else [])"
    using eligible_price [OF assms(1)] by (auto simp add: filter_empty_conv filter_id_conv)
  from Cons show ?case by (auto simp add: same)
qed

lemma get_level_no_key: "p \<notin> fst ` set m \<Longrightarrow> get_level m p = []"
proof -
  assume "p \<notin> fst ` set m"
  then have "map_of m p = None" by (simp add: map_of_eq_None_iff)
  then show ?thesis by (simp add: get_level_def)
qed

lemma sorted_map_const: "\<forall>x \<in> set xs. f x = (c::real) \<Longrightarrow> sorted (map f xs)"
  by (induction xs) auto

lemma sorted_prio_concat:
  assumes "levels_wf m"
  shows "sorted (map (prio n) ps) \<Longrightarrow>
         sorted (map (\<lambda>x. prio n (price x)) (concat (map (eligible m) ps)))"
proof (induction ps)
  case Nil
  then show ?case by simp
next
  case (Cons q ps)
  have blk: "\<forall>x \<in> set (eligible m q). price x = q"
    using eligible_price [OF assms] by blast
  have rest: "\<forall>y \<in> set (concat (map (eligible m) ps)). price y \<in> set ps"
    using eligible_price [OF assms] by auto
  have one: "sorted (map (\<lambda>x. prio n (price x)) (eligible m q))"
    using blk by (intro sorted_map_const [of _ _ "prio n q"]) simp
  have tl: "sorted (map (\<lambda>x. prio n (price x)) (concat (map (eligible m) ps)))"
    using Cons by simp
  have le: "\<forall>z \<in> set ps. prio n q \<le> prio n z"
    using Cons.prems by simp
  have cross: "\<forall>x \<in> set (eligible m q). \<forall>y \<in> set (concat (map (eligible m) ps)).
                 prio n (price x) \<le> prio n (price y)"
    using blk rest le by auto
  have "sorted (map (\<lambda>x. prio n (price x)) (eligible m q)
                @ map (\<lambda>x. prio n (price x)) (concat (map (eligible m) ps)))"
    unfolding sorted_append using one tl cross by auto
  then show ?case by simp
qed

lemma price_priority_prio:
  "price_priority n ps = sorted (map (prio n) ps)"
  by (simp add: price_priority_def prio_def sorted_wrt_map)

lemma set_sortedPrices: "set (sortedPrices m n) = fst ` set m"
  by (simp add: sortedPrices_def)

lemma distinct_sortedPrices: "levels_wf m \<Longrightarrow> distinct (sortedPrices m n)"
  by (simp add: sortedPrices_def levels_wf_def)

lemma resting_orders_wf:
  "levels_wf m \<Longrightarrow> resting_orders m = (\<Union>p \<in> fst ` set m. set (get_level m p))"
  by (force simp add: resting_orders_def levels_wf_def get_level_def)

lemma set_update_subset: "set (AList.update k v al) \<subseteq> insert (k, v) (set al)"
  by (induction al) auto

lemma set_delete_subset: "set (AList.delete k al) \<subseteq> set al"
  by (induction al) auto

lemma levels_wf_update:
  assumes "levels_wf m" "\<forall>x \<in> set os. price x = p"
  shows "levels_wf (AList.update p os m)"
proof -
  have d: "distinct (map fst (AList.update p os m))"
    using assms(1) by (simp add: levels_wf_def distinct_update)
  have "price x = q" if "(q, os') \<in> set (AList.update p os m)" "x \<in> set os'" for q os' x
  proof -
    from that(1) set_update_subset [of p os m]
    have "(q, os') = (p, os) \<or> (q, os') \<in> set m" by blast
    then show ?thesis
      using that(2) assms by (fastforce simp add: levels_wf_def)
  qed
  with d show ?thesis
    unfolding levels_wf_def by blast
qed

lemma levels_wf_delete:
  assumes "levels_wf m"
  shows "levels_wf (AList.delete p m)"
proof -
  have d: "distinct (map fst (AList.delete p m))"
    using assms by (simp add: levels_wf_def distinct_delete)
  have "price x = q" if "(q, os') \<in> set (AList.delete p m)" "x \<in> set os'" for q os' x
  proof -
    from that(1) set_delete_subset [of p m] have "(q, os') \<in> set m" by blast
    then show ?thesis
      using that(2) assms by (fastforce simp add: levels_wf_def)
  qed
  with d show ?thesis
    unfolding levels_wf_def by blast
qed

lemma set_splice_first: "set (splice_first i xs) \<subseteq> set xs"
  by (induction xs) auto

lemma levels_wf_addOrderMap: "levels_wf m \<Longrightarrow> levels_wf (addOrderMap m ord)"
proof -
  assume wf: "levels_wf m"
  define m1 where "m1 = (if \<not> has m (price ord) then AList.update (price ord) [] m else m)"
  have wf1: "levels_wf m1"
    unfolding m1_def using wf by (simp add: levels_wf_update)
  have "\<forall>x \<in> set (sort_key created_at (get_level m1 (price ord) @ [ord])). price x = price ord"
    using get_level_wf [OF wf1] by auto
  then have "levels_wf (AList.update (price ord)
               (sort_key created_at (get_level m1 (price ord) @ [ord])) m1)"
    using wf1 by (intro levels_wf_update)
  then show ?thesis
    by (simp add: addOrderMap_def Let_def m1_def)
qed

lemma levels_wf_removeOrderMap: "levels_wf m \<Longrightarrow> levels_wf (removeOrderMap m ord)"
proof -
  assume wf: "levels_wf m"
  have "\<forall>x \<in> set (splice_first (order_id ord) (get_level m (price ord))). price x = price ord"
    using get_level_wf [OF wf] set_splice_first by blast
  then have "levels_wf (AList.update (price ord)
               (splice_first (order_id ord) (get_level m (price ord))) m)"
    using wf by (intro levels_wf_update)
  then show ?thesis
    using wf by (simp add: removeOrderMap_def Let_def levels_wf_delete)
qed

lemma book_wf_clear: "book_wf clear"
  by (simp add: book_wf_def clear_def levels_wf_def)

lemma book_wf_addOrder: "book_wf ob \<Longrightarrow> book_wf (addOrder ob ord)"
  by (simp add: book_wf_def addOrder_def Let_def levels_wf_addOrderMap)

lemma book_wf_removeOrder: "book_wf ob \<Longrightarrow> book_wf (removeOrder ob ord)"
  by (simp add: book_wf_def removeOrder_def Let_def levels_wf_removeOrderMap)

lemma book_wf_updateOrder: "book_wf ob \<Longrightarrow> book_wf (updateOrder ob ord)"
  by (simp add: updateOrder_def Let_def book_wf_addOrder book_wf_removeOrder split: option.splits)

lemma book_wf_handleOrderUpdate:
  "book_wf ob \<Longrightarrow> book_wf (fst (handleOrderUpdate db ob ev))"
  by (cases ev) (simp_all add: Let_def book_wf_addOrder book_wf_removeOrder book_wf_updateOrder)

lemma get_level_fifo: "levels_fifo m \<Longrightarrow> sorted (map created_at (get_level m p))"
  by (auto simp add: levels_fifo_def level_fifo_def get_level_def split: option.splits
      dest!: map_of_SomeD)

lemma sorted_splice_first:
  "sorted (map created_at xs) \<Longrightarrow> sorted (map created_at (splice_first i xs))"
proof (induction xs)
  case Nil
  then show ?case by simp
next
  case (Cons x xs)
  have "set (splice_first i xs) \<subseteq> set xs"
    by (rule set_splice_first)
  with Cons show ?case by auto
qed

lemma levels_fifo_delete: "levels_fifo m \<Longrightarrow> levels_fifo (AList.delete p m)"
  using set_delete_subset [of p m] by (auto simp add: levels_fifo_def)

lemma levels_fifo_removeOrderMap: "levels_fifo m \<Longrightarrow> levels_fifo (removeOrderMap m ord)"
proof -
  assume f: "levels_fifo m"
  have "level_fifo (splice_first (order_id ord) (get_level m (price ord)))"
    unfolding level_fifo_def by (intro sorted_splice_first get_level_fifo f)
  with f have "levels_fifo (AList.update (price ord)
                 (splice_first (order_id ord) (get_level m (price ord))) m)"
    by (rule levels_fifo_update)
  then show ?thesis
    using f by (simp add: removeOrderMap_def Let_def levels_fifo_delete)
qed

lemma book_fifo_removeOrder: "book_fifo ob \<Longrightarrow> book_fifo (removeOrder ob ord)"
  by (simp add: book_fifo_def removeOrder_def Let_def levels_fifo_removeOrderMap)

lemma book_fifo_updateOrder: "book_fifo ob \<Longrightarrow> book_fifo (updateOrder ob ord)"
  by (simp add: updateOrder_def Let_def book_fifo_addOrder book_fifo_removeOrder
      split: option.splits)

lemma book_fifo_handleOrderUpdate:
  "book_fifo ob \<Longrightarrow> book_fifo (fst (handleOrderUpdate db ob ev))"
  by (cases ev)
     (simp_all add: Let_def book_fifo_addOrder book_fifo_removeOrder book_fifo_updateOrder)

text \<open>Every book the engine reaches from the empty book is well formed and FIFO.\<close>

lemma applyEvents_invariants:
  "book_wf ob \<Longrightarrow> book_fifo ob \<Longrightarrow>
   book_wf (applyEvents db ob evs) \<and> book_fifo (applyEvents db ob evs)"
  by (induction evs arbitrary: ob)
     (simp_all add: book_wf_handleOrderUpdate book_fifo_handleOrderUpdate)

lemma reachable_book_invariants:
  "book_wf (applyEvents db clear evs) \<and> book_fifo (applyEvents db clear evs)"
  by (rule applyEvents_invariants) (rule book_wf_clear, rule book_fifo_clear)

lemma exBook_wf_fifo: "book_wf exBook \<and> book_fifo exBook"
  by (simp add: book_wf_def book_fifo_def levels_wf_def levels_fifo_def level_fifo_def exBook_def
     buyA_def buyB_def sellC_def sellD_def sellF_def sellG_def)

lemma matches_exBook: "findMatches exBook buyE = [sellC, sellD]"
  by (simp add: findMatches_def sortedPrices_def isMatch_def get_level_def exBook_def buyE_def
      sellC_def sellD_def sellG_def sellF_def)

lemma level_price_aggregate: "level_price (aggregate e) = fst e"
  by (cases e) (simp add: aggregate_def)

lemma price_aggregate: "map level_price (map aggregate m) = map fst m"
  by (induction m) (auto simp add: aggregate_def)

lemma map_insort_key: "map f (insort_key f x xs) = insort (f x) (map f xs)"
  by (induction xs) auto

lemma map_sort_key: "map f (sort_key f xs) = sort (map f xs)"
  by (induction xs) (simp_all add: map_insort_key)

lemma sellLevels_prices:
  "map level_price (sellLevels (getSnapshot ob)) = sort (map fst (sellOrders ob))"
  by (simp add: getSnapshot_def Let_def map_sort_key price_aggregate del: map_map)

lemma buyLevels_prices:
  "map (\<lambda>l. - level_price l) (buyLevels (getSnapshot ob)) = sort (map uminus (map fst (buyOrders ob)))"
proof -
  have "map (\<lambda>l. - level_price l) (map aggregate m) = map uminus (map fst m)" for m
    by (induction m) (auto simp add: aggregate_def)
  then show ?thesis
    by (simp add: getSnapshot_def Let_def map_sort_key del: map_map)
qed

lemma sellLevels_ascending:
  assumes "levels_wf (sellOrders ob)"
  shows "sorted_wrt (<) (map level_price (sellLevels (getSnapshot ob)))"
  using assms unfolding sellLevels_prices strict_sorted_iff
  by (simp add: levels_wf_def)

lemma buyLevels_descending:
  assumes "levels_wf (buyOrders ob)"
  shows "sorted_wrt (\<lambda>a b. a > b) (map level_price (buyLevels (getSnapshot ob)))"
proof -
  have "distinct (map uminus (map fst (buyOrders ob)))"
    using assms by (simp add: levels_wf_def distinct_map del: map_map)
  then have "sorted_wrt (<) (map (\<lambda>l. - level_price l) (buyLevels (getSnapshot ob)))"
    unfolding buyLevels_prices strict_sorted_iff by simp
  then show ?thesis
    by (simp add: sorted_wrt_map)
qed

lemma aggregate_level:
  assumes "levels_wf m" "l \<in> set (map aggregate m)"
  shows "level_quantity l = sum_list (map remaining_quantity (get_level m (level_price l)))
         \<and> orderCount l = length (get_level m (level_price l))"
proof -
  from assms(2) obtain p os where mem: "(p, os) \<in> set m" and l: "l = aggregate (p, os)"
    by auto
  from assms(1) mem have "map_of m p = Some os"
    by (simp add: levels_wf_def)
  then have "get_level m p = os"
    by (simp add: get_level_def)
  then show ?thesis
    by (simp add: l aggregate_def foldl_add_sum)
qed

lemma hd_sort_key:
  assumes "sort_key f xs = y # ys"
  shows "y \<in> set xs \<and> (\<forall>x \<in> set xs. f y \<le> f x)"
proof -
  have "set (y # ys) = set xs"
    using assms [symmetric] by simp
  moreover have "sorted (map f (y # ys))"
    using assms [symmetric] by simp
  ultimately show ?thesis by auto
qed

lemma spread_best:
  "spread (getSnapshot ob) =
     (if buyOrders ob = [] \<or> sellOrders ob = [] then 0
      else Min (fst ` set (sellOrders ob)) - Max (fst ` set (buyOrders ob)))"
proof -
  let ?sl = "sort_key level_price (map aggregate (sellOrders ob))"
  let ?bl = "sort_key (\<lambda>l. - level_price l) (map aggregate (buyOrders ob))"
  have sp: "spread (getSnapshot ob) =
              (case (?sl, ?bl) of (s # _, b # _) \<Rightarrow> level_price s - level_price b | _ \<Rightarrow> 0)"
    by (simp add: getSnapshot_def Let_def)
  show ?thesis
  proof (cases ?sl)
    case Nil
    then have "length ?sl = 0" by simp
    then have "sellOrders ob = []" by simp
    with Nil sp show ?thesis by simp
  next
    case sl: (Cons s ss)
    then have sne: "sellOrders ob \<noteq> []" by auto
    show ?thesis
    proof (cases ?bl)
      case Nil
      then have "length ?bl = 0" by simp
      then have "buyOrders ob = []" by simp
      with Nil sl sp show ?thesis by simp
    next
      case bl: (Cons b bs)
      then have bne: "buyOrders ob \<noteq> []" by auto
      from hd_sort_key [OF sl]
      have "level_price s \<in> fst ` set (sellOrders ob)"
        and "\<forall>k \<in> fst ` set (sellOrders ob). level_price s \<le> k"
        by (force simp add: level_price_aggregate)+
      then have mn: "Min (fst ` set (sellOrders ob)) = level_price s"
        by (intro Min_eqI) auto
      from hd_sort_key [OF bl]
      have "level_price b \<in> fst ` set (buyOrders ob)"
        and "\<forall>k \<in> fst ` set (buyOrders ob). k \<le> level_price b"
        by (force simp add: level_price_aggregate)+
      then have mx: "Max (fst ` set (buyOrders ob)) = level_price b"
        by (intro Max_eqI) auto
      from sl bl sp sne bne mn mx show ?thesis by simp
    qed
  qed
qed


lemma snapshot_sets:
  "set (buyLevels (getSnapshot ob)) = set (map aggregate (buyOrders ob))
   \<and> set (sellLevels (getSnapshot ob)) = set (map aggregate (sellOrders ob))"
  by (simp add: getSnapshot_def Let_def)

lemma snapshot_exBook: "getSnapshot exBook =
   \<lparr>buyLevels = [\<lparr>level_price = 20, level_quantity = 13, orderCount = 2\<rparr>],
    sellLevels = [\<lparr>level_price = 24, level_quantity = 0, orderCount = 1\<rparr>,
                  \<lparr>level_price = 25, level_quantity = 10, orderCount = 2\<rparr>,
                  \<lparr>level_price = 27, level_quantity = 7, orderCount = 1\<rparr>],
    spread = 4\<rparr>"
  by (simp add: getSnapshot_def aggregate_def Let_def exBook_def
     buyA_def buyB_def sellC_def sellD_def sellF_def sellG_def)

section \<open>Order submission and FIFO levels\<close>

text \<open>
  C4, as the specification states it: an order with price \<open>\<le> 0\<close>, quantity \<open>\<le> 0\<close> or a side
  that is neither buy nor sell makes \<^verbatim>\<open>addOrder\<close> fail with \<^verbatim>\<open>InvalidOrderError\<close> and leaves
  the book unchanged.  The source has no validation: the order \<open>badOrder\<close> (price \<open>-1\<close>,
  quantity \<open>0\<close>, side \<^verbatim>\<open>hold\<close>) is accepted into an empty book, indexed under its id and
  filed on the sell side.
\<close>

theorem addOrder_accepts_invalid_order:
  "addOrder clear badOrder =
     \<lparr>buyOrders = [], sellOrders = [(- 1, [badOrder])], orderIndex = [(''X'', badOrder)]\<rparr>
   \<and> addOrder clear badOrder \<noteq> clear
   \<and> price badOrder \<le> 0 \<and> quantity badOrder \<le> 0
   \<and> order_type badOrder \<noteq> ''buy'' \<and> order_type badOrder \<noteq> ''sell''"
  by (simp add: addOrder_def addOrderMap_def clear_def has_def get_level_def Let_def badOrder_def)

text \<open>
  C4, amended: \<^verbatim>\<open>addOrder\<close> validates nothing and never fails.  For every order, whatever
  its price, quantity and side, the order is stored in the order index under its id and is a
  member of the level of its price, on the buy side when its side is \<^verbatim>\<open>buy\<close> and on the
  sell side for every other side.
\<close>

theorem addOrder_stores_every_order:
  "map_of (orderIndex (addOrder ob ord)) (order_id ord) = Some ord
   \<and> ord \<in> set (get_level (if order_type ord = ''buy'' then buyOrders (addOrder ob ord)
                               else sellOrders (addOrder ob ord)) (price ord))"
  by (simp add: index_addOrder) (simp add: addOrder_def Let_def level_addOrderMap)

text \<open>
  C5: every \<^verbatim>\<open>addOrder\<close> preserves the invariant that each price level of the book is
  sorted by creation time ascending, and so the book built from the empty book by any
  sequence of \<^verbatim>\<open>addOrder\<close> calls has every level in that order.  The source sorts the level
  on each insertion, so the result does not depend on the calls arriving with strictly
  increasing creation times; that case is included.
\<close>

theorem addOrder_levels_fifo:
  "(book_fifo ob \<longrightarrow> book_fifo (addOrder ob ord))
   \<and> (sorted_wrt (<) (map created_at ords) \<longrightarrow> book_fifo (addOrders clear ords))"
  by (simp add: book_fifo_addOrder addOrders_def book_fifo_foldl book_fifo_clear)

theorem addOrder_levels_fifo_witness:
  "book_fifo (addOrder clear buyA) \<and> sorted_wrt (<) (map created_at [buyA, buyB])
   \<and> book_fifo (addOrder (addOrder clear buyA) buyB)
   \<and> book_fifo (addOrders clear [buyA, buyB])
   \<and> buyOrders (addOrders clear [buyA, buyB]) = [(20, [buyA, buyB])]"
proof -
  have h1: "book_fifo (addOrder clear buyA)"
    unfolding book_buyA by (simp add: book_fifo_def levels_fifo_def level_fifo_def)
  have h2: "sorted_wrt (<) (map created_at [buyA, buyB])"
    by (simp add: buyA_def buyB_def)
  have e: "addOrders clear [buyA, buyB] = addOrder (addOrder clear buyA) buyB"
    by (simp add: addOrders_def)
  from addOrder_levels_fifo [of "addOrder clear buyA" buyB "[buyA, buyB]"] h1 h2
  show ?thesis by (simp add: e book_buyA_buyB)
qed

section \<open>Execution price and quantity\<close>

text \<open>
  C1, as the specification states it: every trade of a matching pass executes at the
  resting order's limit price, never at the incoming order's.  In the source the incoming
  buy order \<open>buy26\<close> (limit 26) meets the resting sell order \<open>sell25\<close> (limit 25), and the
  trade is recorded at 26, the incoming order's limit.
\<close>

theorem incoming_buy_trades_at_its_own_price:
  "map price_per_ton
     (tradesOf (snd (handleOrderUpdate accept_all (addOrder clear sell25) (INSERT buy26)))) = [26]
   \<and> findMatches (addOrder (addOrder clear sell25) buy26) buy26 = [sell25]
   \<and> price sell25 = 25 \<and> price buy26 = 26"
  unfolding pass_sell25_buy26 matches_sell25_buy26
  by (simp add: exec_buy26_sell25) (simp add: trade26_def buy26_def sell25_def)

text \<open>
  C1, amended: for an incoming buy order, every trade its matching pass executes is priced
  at the buyer's limit price, which is the limit of the incoming order ("buyer's price
  takes precedence"), not the limit of the resting sell order it matched.
\<close>

theorem buyer_price_takes_precedence:
  "order_type newOrder = ''buy'' \<Longrightarrow>
   t \<in> set (tradesOf (snd (handleOrderUpdate db ob (INSERT newOrder)))) \<Longrightarrow>
   price_per_ton t = price newOrder"
  by (simp add: Let_def attemptOrderMatching_def tradesOf_price)

theorem buyer_price_takes_precedence_witness:
  "order_type buy26 = ''buy''
   \<and> trade26 \<in> set (tradesOf (snd (handleOrderUpdate accept_all (addOrder clear sell25)
                                     (INSERT buy26))))
   \<and> price_per_ton trade26 = price buy26"
proof -
  have h1: "order_type buy26 = ''buy''"
    by (simp add: buy26_def)
  have h2: "trade26 \<in> set (tradesOf (snd (handleOrderUpdate accept_all (addOrder clear sell25)
                                           (INSERT buy26))))"
    unfolding pass_sell25_buy26 by (simp add: exec_buy26_sell25)
  from buyer_price_takes_precedence [OF h1 h2] h1 h2 show ?thesis by simp
qed

text \<open>
  C2, as the specification states it: each trade takes the minimum of the two remaining
  quantities at the moment of execution, the pass stops once the incoming order is filled,
  and a filled incoming order never rests on the book.  In the source the incoming buy
  order \<open>buyE\<close> for 5 meets two resting sell orders of 5 each: two trades of 5 are executed,
  the second after the first has filled the order, and \<open>buyE\<close> is on the book afterwards.
\<close>

theorem pass_overfills_and_rests:
  "map tx_quantity (tradesOf (snd (handleOrderUpdate accept_all exBook (INSERT buyE)))) = [5, 5]
   \<and> remaining_quantity buyE = 5
   \<and> map_of (orderIndex (fst (handleOrderUpdate accept_all exBook (INSERT buyE)))) ''E''
       = Some buyE
   \<and> buyOrders (fst (handleOrderUpdate accept_all exBook (INSERT buyE)))
       = [(20, [buyA, buyB]), (25, [buyE])]"
  unfolding pass_exBook_buyE
  by (simp add: book_exBook_buyE executeMatch_def accept_all_def Let_def)
     (simp add: buyE_def sellC_def sellD_def exBook_def)

text \<open>
  C2, amended: on the insertion of an order the engine first adds it to the book, whatever
  its remaining quantity, and then attempts one execution against every match that
  \<^verbatim>\<open>findMatches\<close> returned, without stopping early.  Each executed trade's quantity is the
  minimum of the \<^verbatim>\<open>remaining_quantity\<close> fields of the incoming order and of the matched
  order, as they were when the pass began: the pass does not decrement them.
\<close>

theorem pass_executes_every_match:
  "list_all2 (\<lambda>m r. case r of Inl e \<Rightarrow> True
                  | Inr (t, us) \<Rightarrow>
                      tx_quantity t = min (remaining_quantity newOrder) (remaining_quantity m))
      (findMatches (fst (handleOrderUpdate db ob (INSERT newOrder))) newOrder)
      (snd (handleOrderUpdate db ob (INSERT newOrder)))
   \<and> map_of (orderIndex (fst (handleOrderUpdate db ob (INSERT newOrder)))) (order_id newOrder)
       = Some newOrder
   \<and> newOrder \<in> set (get_level
                        (if order_type newOrder = ''buy''
                         then buyOrders (fst (handleOrderUpdate db ob (INSERT newOrder)))
                         else sellOrders (fst (handleOrderUpdate db ob (INSERT newOrder))))
                        (price newOrder))"
  by (simp add: Let_def attemptOrderMatching_def executeMatch_quantities index_addOrder)
     (simp add: addOrder_def Let_def level_addOrderMap)

section \<open>Market statistics\<close>

text \<open>
  C7, as the specification states it: the VWAP is \<open>\<Sum>(price \<times> qty) / \<Sum>qty\<close> whenever at
  least one trade of the instrument lies in the window, and the "no data" value only when
  none does.  In the source a window holding the single trade \<open>tradeZero\<close>, of quantity 0,
  gives "no data": the quotient is guarded by \<^verbatim>\<open>totalQuantity > 0\<close>.
\<close>

theorem vwap_no_data_with_a_trade_in_window:
  "relevantTrades zeroEngine 1000 ''c1'' 3600000 = [tradeZero]
   \<and> getVWAP zeroEngine 1000 ''c1'' 3600000 = None"
  by (simp add: getVWAP_def relevantTrades_def zeroEngine_def tradeZero_def Let_def)

text \<open>
  C7, amended: over the recorded trades of the instrument with timestamp \<open>\<ge> now - window\<close>,
  the VWAP is \<open>\<Sum>(price \<times> qty) / \<Sum>qty\<close> when at least one such trade exists and their total
  quantity is positive; it is the "no data" value when no such trade exists or the total
  quantity is not positive.  So the divisor of the quotient is never zero.
\<close>

theorem getVWAP_formula:
  "getVWAP pe now cid timeWindow =
     (let relevant = relevantTrades pe now cid timeWindow;
          totalValue = sum_list (map (\<lambda>t. trade_price t * trade_quantity t) relevant);
          totalQuantity = sum_list (map trade_quantity relevant)
      in if relevant = [] \<or> totalQuantity \<le> 0 then None
         else Some (totalValue / totalQuantity))"
  by (auto simp add: getVWAP_def Let_def foldl_add_sum)

theorem getVWAP_formula_witness:
  "relevantTrades exEngine 250 ''c1'' 200 = [trade2, trade3]
   \<and> getVWAP exEngine 250 ''c1'' 200 = Some (70 / 3)"
  using getVWAP_formula [of exEngine 250 "''c1''" 200]
  by (simp add: relevantTrades_def exEngine_def trade1_def trade2_def trade3_def Let_def)

text \<open>
  C8, as the specification states it (\<open>priceChange_spec\<close>): the last price minus the price
  of the oldest trade still within the window, and "no data" with fewer than two trades in
  range.  The source takes as baseline the first recorded trade at or before the start of
  the window.  With trades at times 0, 100 and 200 priced 10, 20 and 30 and the clock at 250:
  for a window of 200 the source answers 20 (200 percent) where the specification's
  formula gives 10 (50 percent); for a window of 300, which holds all three trades, the
  source answers "no data".
\<close>

theorem getPriceChange_differs_from_spec:
  "getPriceChange exEngine 250 ''c1'' 200 = Some \<lparr>absolute = 20, percentage = Num 200\<rparr>
   \<and> priceChange_spec exEngine 250 ''c1'' 200 = Some \<lparr>absolute = 10, percentage = Num 50\<rparr>
   \<and> getPriceChange exEngine 250 ''c1'' 300 = None
   \<and> priceChange_spec exEngine 250 ''c1'' 300 = Some \<lparr>absolute = 20, percentage = Num 200\<rparr>"
  by (simp add: getPriceChange_def priceChange_spec_def getLastPrice_def get_history_def
      exEngine_def trade1_def trade2_def trade3_def Let_def js_div_def)

text \<open>
  C8, amended: \<^verbatim>\<open>getPriceChange\<close> returns the last recorded trade price of the instrument
  minus the price of the first recorded trade whose timestamp is at or before
  \<open>now - window\<close>, together with that difference as a percentage of the baseline price.  It
  returns "no data" exactly when the instrument has fewer than two recorded trades, or no
  recorded trade is at or before \<open>now - window\<close>, or the last price is 0.
\<close>

theorem getPriceChange_baseline:
  "getPriceChange pe now cid timeWindow =
     (let trades = get_history (priceHistory pe) cid
      in case find (\<lambda>t. timestamp t \<le> now - timeWindow) trades of
           None \<Rightarrow> None
         | Some h \<Rightarrow>
             if length trades < 2 \<or> trade_price (last trades) = 0 then None
             else Some \<lparr>absolute = trade_price (last trades) - trade_price h,
                        percentage = js_times (js_div (trade_price (last trades) - trade_price h)
                                                 (trade_price h)) 100\<rparr>)
   \<and> (getPriceChange pe now cid timeWindow = None) =
       (length (get_history (priceHistory pe) cid) < 2
        \<or> (\<forall>t \<in> set (get_history (priceHistory pe) cid). now - timeWindow < timestamp t)
        \<or> trade_price (last (get_history (priceHistory pe) cid)) = 0)"
proof -
  have eq: "getPriceChange pe now cid timeWindow =
     (let trades = get_history (priceHistory pe) cid
      in case find (\<lambda>t. timestamp t \<le> now - timeWindow) trades of
           None \<Rightarrow> None
         | Some h \<Rightarrow>
             if length trades < 2 \<or> trade_price (last trades) = 0 then None
             else Some \<lparr>absolute = trade_price (last trades) - trade_price h,
                        percentage = js_times (js_div (trade_price (last trades) - trade_price h)
                                                 (trade_price h)) 100\<rparr>)"
    by (auto simp add: getPriceChange_def getLastPrice_def get_history_def Let_def
        split: option.splits)
  have none: "(find (\<lambda>t. timestamp t \<le> now - timeWindow) ts = None) =
              (\<forall>t \<in> set ts. now - timeWindow < timestamp t)" for ts
    by (auto simp add: find_None_iff)
  have "(getPriceChange pe now cid timeWindow = None) =
       (length (get_history (priceHistory pe) cid) < 2
        \<or> (\<forall>t \<in> set (get_history (priceHistory pe) cid). now - timeWindow < timestamp t)
        \<or> trade_price (last (get_history (priceHistory pe) cid)) = 0)"
  proof (cases "find (\<lambda>t. timestamp t \<le> now - timeWindow) (get_history (priceHistory pe) cid)")
    case None
    then show ?thesis
      using none [of "get_history (priceHistory pe) cid"] by (simp add: eq Let_def)
  next
    case (Some h)
    then have "\<not> (\<forall>t \<in> set (get_history (priceHistory pe) cid). now - timeWindow < timestamp t)"
      using none [of "get_history (priceHistory pe) cid"] by simp
    with Some show ?thesis
      by (simp add: eq Let_def)
  qed
  with eq show ?thesis
    by (rule conjI)
qed

theorem getPriceChange_baseline_witness:
  "find (\<lambda>t. timestamp t \<le> 250 - 200) (get_history (priceHistory exEngine) ''c1'') = Some trade1
   \<and> getPriceChange exEngine 250 ''c1'' 200 = Some \<lparr>absolute = 20, percentage = Num 200\<rparr>"
  using getPriceChange_baseline [of exEngine 250 "''c1''" 200]
  by (simp add: get_history_def exEngine_def trade1_def trade2_def trade3_def Let_def js_div_def)

section \<open>Worker analytics\<close>

text \<open>
  C9, as the specification states it: the volatility of a window of at least two points is
  its sample standard deviation (divisor \<open>n - 1\<close>).  For the window \<open>[1, 3]\<close> the source
  computes 1, the sample standard deviation is \<open>\<surd>2\<close>.
\<close>

theorem volatility_is_not_sample_std_dev:
  "calculateVolatility [1, 3] = 1 \<and> sample_std_dev [1, 3] = sqrt 2
   \<and> calculateVolatility [1, 3] \<noteq> sample_std_dev [1, 3]"
proof -
  have "sqrt 2 \<noteq> 1" by simp
  then show ?thesis by (simp add: volatility_1_3 sample_1_3)
qed

text \<open>
  C9, amended: for every price series window of at least two points the volatility is the
  population standard deviation of the window (variance with divisor \<open>n\<close>), and the moving
  average at an index is the arithmetic mean of the trailing window, the last
  \<open>min 5 (index + 1)\<close> points up to that index.
\<close>

theorem volatility_and_moving_average:
  "index < length rawData \<Longrightarrow>
    trailingWindow rawData index
      = map (\<lambda>k. rawData ! k) [index + 1 - min 5 (index + 1) ..< index + 1]
    \<and> movingAverageAt rawData index = arithmetic_mean (trailingWindow rawData index)
    \<and> (2 \<le> length prices \<longrightarrow> calculateVolatility prices = population_std_dev prices)
    \<and> (1 \<le> index \<longrightarrow>
          volatilityAt rawData index = population_std_dev (trailingWindow rawData index))"
  using window_length [of index rawData]
  by (auto simp add: window_points movingAverage_mean volatility_population
      volatilityAt_def simp del: upt_Suc)

theorem volatility_and_moving_average_witness:
  "(1::nat) < length [1, 3 :: real] \<and> trailingWindow [1, 3] 1 = [1, 3]
   \<and> movingAverageAt [1, 3] 1 = 2 \<and> calculateVolatility [1, 3] = 1
   \<and> volatilityAt [1, 3] 1 = 1"
proof -
  have h: "(1::nat) < length [1, 3 :: real]" by simp
  have u: "[Suc 0 + 1 - min 5 (Suc 0 + 1)..<Suc 0 + 1] = [0, 1]"
    by (simp add: upt_rec)
  have p: "population_std_dev [1, 3] = 1"
    by (simp add: population_std_dev_def arithmetic_mean_def)
  from volatility_and_moving_average [OF h, of "[1, 3]"] h show ?thesis
    by (simp add: u arithmetic_mean_def p)
qed

text \<open>
  C10: the divisor \<open>buyDepth + sellDepth\<close> of the order-imbalance ratio is nonzero for every
  input, so that the imbalance is a number in \<open>[-0.5, 0.5]\<close>.  The source does not guard the
  division: for the book with no buy level and no sell level both depths are 0 and the
  imbalance is \<^verbatim>\<open>NaN\<close>.  (Lemma \<open>imbalance_in_range\<close> is the claim for books of positive
  total depth.)
\<close>

theorem imbalance_empty_book_is_NaN:
  "imbalance (calculateOrderBookAnalytics [] []) = NaN
   \<and> depth_total (calculateOrderBookAnalytics [] []) = 0"
  by (simp add: calculateOrderBookAnalytics_def js_div_def)

section \<open>Match finding\<close>

text \<open>
  C3: on a well-formed book (one level per price, each order filed under its own price,
  as every book built by the book operations is), \<^verbatim>\<open>findMatches\<close> returns exactly the
  resting orders of the opposite side whose price crosses the incoming order's limit and
  whose remaining quantity is positive; their prices are in price priority (ascending
  asks for a buy, descending bids for a sell); the matches at one price are the eligible
  orders of that level in the level's queue order, which is creation time ascending when
  the levels are FIFO; and the scan is cut at the first sorted price that does not cross
  the limit.
\<close>

theorem findMatches_price_time_priority:
  assumes "book_wf ob"
  shows "set (findMatches ob n)
           = {x \<in> resting_orders (opposite_side ob n). crosses n x \<and> remaining_quantity x > 0}
     \<and> price_priority n (map price (findMatches ob n))
     \<and> (\<forall>p. filter (\<lambda>x. price x = p) (findMatches ob n)
              = (if isMatch n p
                 then filter (\<lambda>x. remaining_quantity x > 0) (get_level (opposite_side ob n) p)
                 else []))
     \<and> (book_fifo ob \<longrightarrow>
          (\<forall>p. sorted (map created_at (filter (\<lambda>x. price x = p) (findMatches ob n)))))
     \<and> findMatches ob n
         = concat (map (\<lambda>p. filter (\<lambda>x. remaining_quantity x > 0)
                                (get_level (opposite_side ob n) p))
                    (takeWhile (isMatch n) (sortedPrices (opposite_side ob n) n)))"
proof -
  let ?m = "opposite_side ob n"
  have wf: "levels_wf ?m"
    using assms by (simp add: book_wf_def opposite_side_def)
  let ?ps = "filter (isMatch n) (sortedPrices ?m n)"
  have fm: "findMatches ob n = concat (map (eligible ?m) ?ps)"
    by (simp add: findMatches_concat takeWhile_sortedPrices)
  have d: "distinct ?ps"
    using wf by (simp add: distinct_sortedPrices)
  have byprice: "filter (\<lambda>x. price x = p) (findMatches ob n)
                 = (if isMatch n p then eligible ?m p else [])" for p
  proof (cases "p \<in> fst ` set ?m")
    case True
    then show ?thesis
      unfolding fm filter_price_concat [OF wf d] by (simp add: set_sortedPrices)
  next
    case False
    then have "eligible ?m p = []" by (simp add: eligible_def get_level_no_key)
    with False show ?thesis
      unfolding fm filter_price_concat [OF wf d] by (simp add: set_sortedPrices)
  qed
  have "sorted (map (prio n) ?ps)"
    by (simp add: sortedPrices_prio sorted_filter)
  then have pr: "price_priority n (map price (findMatches ob n))"
    unfolding fm price_priority_prio using sorted_prio_concat [OF wf, of n ?ps]
    by (simp add: comp_def)
  have "set (findMatches ob n) = (\<Union>p \<in> set ?ps. set (eligible ?m p))"
    unfolding fm by simp
  also have "\<dots> = {x \<in> resting_orders ?m. crosses n x \<and> remaining_quantity x > 0}"
    unfolding resting_orders_wf [OF wf]
    using get_level_wf [OF wf]
    by (auto simp add: set_sortedPrices eligible_def crosses_def isMatch_def)
  finally have s: "set (findMatches ob n)
      = {x \<in> resting_orders ?m. crosses n x \<and> remaining_quantity x > 0}" .
  have fifo: "sorted (map created_at (filter (\<lambda>x. price x = p) (findMatches ob n)))"
    if "book_fifo ob" for p
  proof -
    from that have "levels_fifo ?m"
      by (simp add: book_fifo_def opposite_side_def)
    then have "sorted (map created_at (eligible ?m p))"
      unfolding eligible_def by (intro sorted_filter get_level_fifo)
    then show ?thesis
      by (simp add: byprice)
  qed
  show ?thesis
    using s pr byprice fifo findMatches_concat [of ob n]
    by (simp add: eligible_def [abs_def])
qed


theorem findMatches_price_time_priority_witness:
  "book_wf exBook \<and> book_fifo exBook
   \<and> findMatches exBook buyE = [sellC, sellD]
   \<and> set [sellC, sellD]
       = {x \<in> resting_orders (sellOrders exBook). price x \<le> 25 \<and> remaining_quantity x > 0}"
proof -
  have h: "book_wf exBook" using exBook_wf_fifo by simp
  have "set (findMatches exBook buyE)
          = {x \<in> resting_orders (opposite_side exBook buyE).
               crosses buyE x \<and> remaining_quantity x > 0}"
    using findMatches_price_time_priority [OF h, of buyE] by blast
  then have "set [sellC, sellD]
       = {x \<in> resting_orders (sellOrders exBook). price x \<le> 25 \<and> remaining_quantity x > 0}"
    unfolding matches_exBook by (simp add: opposite_side_def crosses_def buyE_def)
  then show ?thesis
    using exBook_wf_fifo matches_exBook by simp
qed

section \<open>Snapshots\<close>

text \<open>
  C6: on a well-formed book the snapshot has one aggregated level for each distinct price
  of a side (the level prices are strictly descending on the buy side and strictly
  ascending on the sell side, and they are exactly the prices of the side), each level
  carries the sum of the remaining quantities and the number of the orders at its price,
  and the spread is the lowest ask price minus the highest bid price when both sides are
  non-empty and 0 when either side is empty.
\<close>

theorem getSnapshot_levels:
  assumes "book_wf ob"
  shows "sorted_wrt (\<lambda>a b. a > b) (map level_price (buyLevels (getSnapshot ob)))
     \<and> sorted_wrt (\<lambda>a b. a < b) (map level_price (sellLevels (getSnapshot ob)))
     \<and> level_price ` set (buyLevels (getSnapshot ob)) = fst ` set (buyOrders ob)
     \<and> level_price ` set (sellLevels (getSnapshot ob)) = fst ` set (sellOrders ob)
     \<and> (\<forall>l \<in> set (buyLevels (getSnapshot ob)).
           level_quantity l
             = sum_list (map remaining_quantity (get_level (buyOrders ob) (level_price l)))
           \<and> orderCount l = length (get_level (buyOrders ob) (level_price l)))
     \<and> (\<forall>l \<in> set (sellLevels (getSnapshot ob)).
           level_quantity l
             = sum_list (map remaining_quantity (get_level (sellOrders ob) (level_price l)))
           \<and> orderCount l = length (get_level (sellOrders ob) (level_price l)))
     \<and> spread (getSnapshot ob)
         = (if buyOrders ob = [] \<or> sellOrders ob = [] then 0
            else Min (fst ` set (sellOrders ob)) - Max (fst ` set (buyOrders ob)))"
proof -
  have b: "levels_wf (buyOrders ob)" and s: "levels_wf (sellOrders ob)"
    using assms by (simp_all add: book_wf_def)
  have kb: "level_price ` set (buyLevels (getSnapshot ob)) = fst ` set (buyOrders ob)"
    by (simp add: snapshot_sets image_image level_price_aggregate)
  have ks: "level_price ` set (sellLevels (getSnapshot ob)) = fst ` set (sellOrders ob)"
    by (simp add: snapshot_sets image_image level_price_aggregate)
  have qb: "\<forall>l \<in> set (buyLevels (getSnapshot ob)).
           level_quantity l
             = sum_list (map remaining_quantity (get_level (buyOrders ob) (level_price l)))
           \<and> orderCount l = length (get_level (buyOrders ob) (level_price l))"
    using aggregate_level [OF b] snapshot_sets [of ob] by blast
  have qs: "\<forall>l \<in> set (sellLevels (getSnapshot ob)).
           level_quantity l
             = sum_list (map remaining_quantity (get_level (sellOrders ob) (level_price l)))
           \<and> orderCount l = length (get_level (sellOrders ob) (level_price l))"
    using aggregate_level [OF s] snapshot_sets [of ob] by blast
  from buyLevels_descending [OF b] sellLevels_ascending [OF s] kb ks qb qs spread_best [of ob]
  show ?thesis by blast
qed

theorem getSnapshot_levels_witness:
  "book_wf exBook
   \<and> spread (getSnapshot exBook) = 4
   \<and> Min (fst ` set (sellOrders exBook)) - Max (fst ` set (buyOrders exBook)) = 4
   \<and> map level_price (sellLevels (getSnapshot exBook)) = [24, 25, 27]"
proof -
  have h: "book_wf exBook" using exBook_wf_fifo by simp
  have ne: "\<not> (buyOrders exBook = [] \<or> sellOrders exBook = [])"
    by (simp add: exBook_def)
  have "spread (getSnapshot exBook)
         = (if buyOrders exBook = [] \<or> sellOrders exBook = [] then 0
            else Min (fst ` set (sellOrders exBook)) - Max (fst ` set (buyOrders exBook)))"
    using getSnapshot_levels [OF h] by blast
  with ne have "Min (fst ` set (sellOrders exBook)) - Max (fst ` set (buyOrders exBook))
                 = spread (getSnapshot exBook)"
    by simp
  then show ?thesis
    using h by (simp add: snapshot_exBook)
qed

end
